theory Spec2Isabelle
  imports Main
begin

unbundle bit_operations_syntax

section \<open>docker-cp: copying one file between a container and the local filesystem\<close>

text \<open>
  A shallow embedding of \<^verbatim>\<open>docker_cp.py\<close>. Python integers are \<open>int\<close>, byte strings
  and text strings are \<open>string\<close> (a list of 8-bit characters), exceptions are values of
  the type \<open>exn\<close>, and everything a function does to the outside (calls on the container
  engine, the local filesystem, standard output) is recorded in an explicit \<open>world\<close>
  that is passed in and returned.
\<close>

subsection \<open>Constants and file-mode predicates (lines 10-30)\<close>

type_synonym bytes = string

definition DEFAULT_BUF_SIZE :: int where
  "DEFAULT_BUF_SIZE = 1024"

definition SEP :: char where
  "SEP = CHR '':''"

definition MODE_DIR :: int where
  "MODE_DIR = push_bit (32 - 1) 1"

definition MODE_SYMLINK :: int where
  "MODE_SYMLINK = push_bit (32 - 4) 1"

definition MODE_DEV :: int where
  "MODE_DEV = push_bit (32 - 5) 1"

definition MODE_NAMED_PIPE :: int where
  "MODE_NAMED_PIPE = push_bit (32 - 6) 1"

definition MODE_SOCKET :: int where
  "MODE_SOCKET = push_bit (32 - 7) 1"

definition MODE_CHAR_DEV :: int where
  "MODE_CHAR_DEV = push_bit (32 - 10) 1"

definition MODE_IRREGULAR :: int where
  "MODE_IRREGULAR = push_bit (32 - 12) 1"

definition MODE_REG :: int where
  "MODE_REG = (MODE_DIR OR MODE_SYMLINK OR MODE_NAMED_PIPE OR MODE_SOCKET OR MODE_DEV
               OR MODE_CHAR_DEV OR MODE_IRREGULAR)"

text \<open>
  \<^verbatim>\<open>mode & MODE_DIR != 0\<close>: in Python \<open>&\<close> binds tighter than \<open>!=\<close>. The source
  names are \<^verbatim>\<open>_is_dir\<close> and \<^verbatim>\<open>_is_reg\<close>; an Isabelle name cannot start with an
  underscore.
\<close>

definition is_dir :: "int \<Rightarrow> bool" where
  "is_dir mode = (mode AND MODE_DIR \<noteq> 0)"

definition is_reg :: "int \<Rightarrow> bool" where
  "is_reg mode = (mode AND MODE_REG = 0)"

subsection \<open>The chunk-to-stream adapter (class \<^verbatim>\<open>_Reader\<close>, lines 37-58)\<close>

text \<open>
  Python's slices \<^verbatim>\<open>b[:n]\<close> and \<^verbatim>\<open>b[n:]\<close> for any integer \<open>n\<close>: a negative
  \<open>n\<close> counts from the end, and an index outside the string is clipped.
\<close>

definition slice_to :: "'a list \<Rightarrow> int \<Rightarrow> 'a list" where
  "slice_to b n = (if n < 0 then take (nat (int (length b) + n)) b else take (nat n) b)"

definition slice_from :: "'a list \<Rightarrow> int \<Rightarrow> 'a list" where
  "slice_from b n = (if n < 0 then drop (nat (int (length b) + n)) b else drop (nat n) b)"

text \<open>
  The generator is the list of the chunks it has still to yield; \<^verbatim>\<open>next\<close> on the empty
  list raises \<^verbatim>\<open>StopIteration\<close>, and keeps doing so.
\<close>

record Reader =
  generator :: "bytes list"
  buf :: bytes

definition Reader_init :: "bytes list \<Rightarrow> Reader" where
  "Reader_init g = \<lparr>generator = g, buf = []\<rparr>"

text \<open>The \<^verbatim>\<open>while len(rv) < n\<close> loop of \<^verbatim>\<open>read\<close> (lines 49-57).\<close>

function read_loop :: "int \<Rightarrow> bytes \<Rightarrow> Reader \<Rightarrow> bytes \<times> Reader" where
  "read_loop n rv r =
     (if int (length rv) < n then
        (case generator r of
           [] \<Rightarrow> (rv, r)
         | data # rest \<Rightarrow>
             (let to_return = n - int (length rv)
              in read_loop n (rv @ buf r @ slice_to data to_return)
                   \<lparr>generator = rest, buf = slice_from data to_return\<rparr>))
      else (rv, r))"
  by pat_completeness auto
termination
  by (relation "measure (\<lambda>(n, rv, r). length (generator r))") auto

declare read_loop.simps [simp del]

definition read :: "Reader \<Rightarrow> int \<Rightarrow> bytes \<times> Reader" where
  "read r n =
     (if n \<le> int (length (buf r)) then (slice_to (buf r) n, r\<lparr>buf := slice_from (buf r) n\<rparr>)
      else read_loop n (buf r) (r\<lparr>buf := []\<rparr>))"

text \<open>A caller issuing the reads \<open>ns\<close> one after the other: the results, and the reader left.\<close>

fun reads :: "Reader \<Rightarrow> int list \<Rightarrow> bytes list \<times> Reader" where
  "reads r [] = ([], r)"
| "reads r (n # ns) =
     (case read r n of (rv, r1) \<Rightarrow> (case reads r1 ns of (rvs, r2) \<Rightarrow> (rv # rvs, r2)))"

text \<open>The bytes a reader has still to deliver: its buffer, then the chunks not yet pulled.\<close>

definition remaining :: "Reader \<Rightarrow> bytes" where
  "remaining r = buf r @ concat (generator r)"

subsection \<open>Paths (\<^verbatim>\<open>os.path\<close> on POSIX)\<close>

text \<open>
  \<^verbatim>\<open>os.path.basename\<close> is what follows the last slash, \<^verbatim>\<open>os.path.dirname\<close> what comes
  before it, with the trailing slashes removed unless it consists of slashes only.
  \<^verbatim>\<open>os.path.join\<close> is needed for two components only.
\<close>

definition rfind_slash :: "string \<Rightarrow> nat" where
  "rfind_slash p = length p - length (takeWhile (\<lambda>c. c \<noteq> CHR ''/'') (rev p))"

definition basename :: "string \<Rightarrow> string" where
  "basename p = drop (rfind_slash p) p"

definition rstrip_slash :: "string \<Rightarrow> string" where
  "rstrip_slash s = rev (dropWhile (\<lambda>c. c = CHR ''/'') (rev s))"

definition dirname :: "string \<Rightarrow> string" where
  "dirname p =
     (let head = take (rfind_slash p) p
      in if head \<noteq> [] \<and> head \<noteq> replicate (length head) CHR ''/'' then rstrip_slash head
         else head)"

definition path_join :: "string \<Rightarrow> string \<Rightarrow> string" where
  "path_join a b =
     (if b \<noteq> [] \<and> hd b = CHR ''/'' then b
      else if a = [] \<or> last a = CHR ''/'' then a @ b
      else a @ ''/'' @ b)"

subsection \<open>Exceptions, the world, and the collaborators\<close>

text \<open>
  \<open>APIError\<close> is the engine client's error and \<open>CopyError\<close> the program's own (line 33),
  each with its message; \<open>OtherError\<close> stands for every other exception, by name.
\<close>

datatype exn = APIError string | CopyError string | IsADirectoryError | OtherError string

text \<open>
  What a local path names, as \<^verbatim>\<open>os.lstat\<close> sees it: a directory, a regular file with
  its bytes, or a symbolic link with its target.
\<close>

datatype node = Dir | File bytes | Symlink string

text \<open>
  An archive is the list of its members. A member the decoder yields is a regular file:
  a name and its bytes.
\<close>

type_synonym tar_entry = "string \<times> bytes"

text \<open>
  A member packed for an upload is a name with what \<^verbatim>\<open>tarf.add\<close> stores for it: the
  bytes of a regular file or, for a symbolic link, the link's target and no bytes.
\<close>

datatype body = Content bytes | LinkTo string

type_synonym tar_member = "string \<times> body"

text \<open>
  What the program does outside itself, in order: \<open>GetArchive path chunk_size\<close> is a call of
  \<^verbatim>\<open>container.get_archive\<close> (the chunk size \<open>None\<close> when the call leaves it to the
  client's default), \<open>StreamClose\<close> the \<^verbatim>\<open>data.close()\<close> of its stream, \<open>PutArchive\<close> a
  call of \<^verbatim>\<open>container.put_archive\<close>, \<open>TarOpenRead\<close> the opening of the stream decoder
  with its buffer size, and \<open>TarAdd src arcname\<close> the packing of a local file.
\<close>

datatype event =
    FromEnv
  | ContainersGet string
  | GetArchive string "int option"
  | StreamClose
  | PutArchive string "tar_member list"
  | TarOpenRead int
  | TarAdd string string

record world =
  local_fs :: "string \<Rightarrow> node option"
  trace :: "event list"
  stdout :: "string list"

definition emit :: "event \<Rightarrow> world \<Rightarrow> world" where
  "emit e w = w\<lparr>trace := trace w @ [e]\<rparr>"

definition print :: "string \<Rightarrow> world \<Rightarrow> world" where
  "print s w = w\<lparr>stdout := stdout w @ [s]\<rparr>"

text \<open>
  \<^verbatim>\<open>os.stat\<close> and \<^verbatim>\<open>open\<close> follow symbolic links: \<open>follow k fs p\<close> is the path reached
  from \<open>p\<close> and what it names there (\<open>None\<close> when nothing), or \<open>None\<close> when more than \<open>k\<close>
  links would have to be followed. A relative target is taken from the link's directory.
  The system gives up after \<open>MAXSYMLINKS\<close> links.
\<close>

fun follow :: "nat \<Rightarrow> (string \<Rightarrow> node option) \<Rightarrow> string \<Rightarrow> (string \<times> node option) option" where
  "follow k fs p =
     (case fs p of
        Some (Symlink target) \<Rightarrow>
          (if k = 0 then None else follow (k - 1) fs (path_join (dirname p) target))
      | other \<Rightarrow> Some (p, other))"

declare follow.simps [simp del]

definition MAXSYMLINKS :: nat where
  "MAXSYMLINKS = 40"

definition stat_node :: "world \<Rightarrow> string \<Rightarrow> node option" where
  "stat_node w p =
     (case follow MAXSYMLINKS (local_fs w) p of
        None \<Rightarrow> None
      | Some (q, n) \<Rightarrow> n)"

text \<open>\<^verbatim>\<open>os.path.isdir\<close> and \<^verbatim>\<open>os.path.isfile\<close> ask \<^verbatim>\<open>os.stat\<close>, so they follow links.\<close>

definition isdir :: "world \<Rightarrow> string \<Rightarrow> bool" where
  "isdir w p = (stat_node w p = Some Dir)"

definition isfile :: "world \<Rightarrow> string \<Rightarrow> bool" where
  "isfile w p = (case stat_node w p of Some (File b) \<Rightarrow> True | _ \<Rightarrow> False)"

text \<open>\<^verbatim>\<open>st['mode']\<close> of the metadata an archive fetch returns.\<close>

record stat =
  mode :: int

text \<open>
  A container of the engine client: what its two archive calls answer. A call that
  raises answers \<open>Inl\<close>.
\<close>

record container =
  get_archive :: "string \<Rightarrow> int option \<Rightarrow> exn + (bytes list \<times> stat)"
  put_archive :: "string \<Rightarrow> tar_member list \<Rightarrow> exn + unit"

text \<open>
  The libraries the program imports: \<^verbatim>\<open>docker.from_env()\<close>,
  \<^verbatim>\<open>client.containers.get(name)\<close>, and \<^verbatim>\<open>tarfile.open(fileobj, bufsize, mode='r|')\<close>,
  which decodes the stream it reads through the reader into the archive's members.
\<close>

record env =
  from_env :: "exn + unit"
  containers_get :: "string \<Rightarrow> exn + container"
  tarfile_open :: "Reader \<Rightarrow> int \<Rightarrow> exn + tar_entry list"

subsection \<open>Download (\<^verbatim>\<open>copy_from\<close>, lines 72-96)\<close>

text \<open>
  \<^verbatim>\<open>open(dest, 'wb')\<close>: the file is created, or emptied, at the path that \<open>dest\<close> leads to
  through its links, which is returned; opening a directory raises
  \<^verbatim>\<open>IsADirectoryError\<close>, and a chain of links too long \<^verbatim>\<open>OSError\<close>.
\<close>

definition open_wb :: "string \<Rightarrow> world \<Rightarrow> (exn + string) \<times> world" where
  "open_wb dest w =
     (case follow MAXSYMLINKS (local_fs w) dest of
        None \<Rightarrow> (Inl (OtherError ''OSError''), w)
      | Some (target, Some Dir) \<Rightarrow> (Inl IsADirectoryError, w)
      | Some (target, other) \<Rightarrow> (Inr target, w\<lparr>local_fs := (local_fs w)(target \<mapsto> File [])\<rparr>))"

text \<open>
  \<^verbatim>\<open>tf.extractall(path=dest)\<close>: every member is written under \<open>dest\<close> by its own name,
  to a file opened as above.
\<close>

fun extractall :: "tar_entry list \<Rightarrow> string \<Rightarrow> world \<Rightarrow> (exn + unit) \<times> world" where
  "extractall [] dest w = (Inr (), w)"
| "extractall ((name, data) # members) dest w =
     (case open_wb (path_join dest name) w of
        (Inl e, w1) \<Rightarrow> (Inl e, w1)
      | (Inr target, w1) \<Rightarrow>
          extractall members dest (w1\<lparr>local_fs := (local_fs w1)(target \<mapsto> File data)\<rparr>))"

text \<open>
  The loop of lines 87-92: \<open>sf\<close> is what the member has still to give, \<open>df\<close> what has been
  written to the destination.
\<close>

function copy_chunks :: "bytes \<Rightarrow> bytes \<Rightarrow> bytes" where
  "copy_chunks sf df =
     (let chunk = take (nat DEFAULT_BUF_SIZE) sf
      in if chunk \<noteq> [] then copy_chunks (drop (nat DEFAULT_BUF_SIZE) sf) (df @ chunk) else df)"
  by pat_completeness auto
termination
  by (relation "measure (\<lambda>(sf, df). length sf)") (auto simp: DEFAULT_BUF_SIZE_def)

declare copy_chunks.simps [simp del]

text \<open>
  Lines 85-92. \<^verbatim>\<open>tf.next()\<close> is \<^verbatim>\<open>None\<close> on an archive with no member, and
  \<^verbatim>\<open>tf.extractfile(None)\<close> then raises, after the destination has been opened.
\<close>

definition extract_first :: "tar_entry list \<Rightarrow> string \<Rightarrow> world \<Rightarrow> (exn + unit) \<times> world" where
  "extract_first tf dest w =
     (let file_to_extract = (case tf of [] \<Rightarrow> None | m # ms \<Rightarrow> Some m)
      in case open_wb dest w of
           (Inl e, w1) \<Rightarrow> (Inl e, w1)
         | (Inr target, w1) \<Rightarrow>
             (case file_to_extract of
                None \<Rightarrow> (Inl (OtherError ''AttributeError''), w1)
              | Some (name, data) \<Rightarrow>
                  (Inr (), w1\<lparr>local_fs := (local_fs w1)(target \<mapsto> File (copy_chunks data []))\<rparr>)))"

text \<open>The body of the \<^verbatim>\<open>try\<close> statement, lines 75-92.\<close>

definition copy_from_try ::
  "env \<Rightarrow> bytes list \<Rightarrow> stat \<Rightarrow> string \<Rightarrow> world \<Rightarrow> (exn + unit) \<times> world" where
  "copy_from_try e data st dest w =
     (if \<not> is_reg (mode st) then (Inl (CopyError ''Only regular files are supported''), w)
      else
        (let w1 = emit (TarOpenRead DEFAULT_BUF_SIZE) w
         in case tarfile_open e (Reader_init data) DEFAULT_BUF_SIZE of
              Inl x \<Rightarrow> (Inl x, w1)
            | Inr tf \<Rightarrow>
                (if isdir w1 dest then extractall tf dest w1
                 else
                   (let parent = dirname dest
                    in if \<not> isdir w1 parent
                       then (Inl (CopyError (''Not a directory: '' @ parent)), w1)
                       else extract_first tf dest w1))))"

definition copy_from ::
  "env \<Rightarrow> container \<Rightarrow> string \<Rightarrow> string \<Rightarrow> world \<Rightarrow> (exn + unit) \<times> world" where
  "copy_from e c path dest w =
     (let w1 = emit (GetArchive path (Some DEFAULT_BUF_SIZE)) w
      in case get_archive c path (Some DEFAULT_BUF_SIZE) of
           Inl x \<Rightarrow> (Inl x, w1)
         | Inr (data, st) \<Rightarrow>
             (case copy_from_try e data st dest w1 of
                (Inl IsADirectoryError, w2) \<Rightarrow>
                  (Inl (CopyError ''Destination is a directory''), emit StreamClose w2)
              | (r, w2) \<Rightarrow> (r, emit StreamClose w2)))"

subsection \<open>Upload (\<^verbatim>\<open>get_stat\<close> and \<^verbatim>\<open>copy_to\<close>, lines 61-69 and 99-122)\<close>

definition get_stat :: "container \<Rightarrow> string \<Rightarrow> world \<Rightarrow> (exn + stat) \<times> world" where
  "get_stat c path w =
     (let w1 = emit (GetArchive path None) w
      in case get_archive c path None of
           Inl x \<Rightarrow> (Inl x, w1)
         | Inr (data, st) \<Rightarrow> (Inr st, emit StreamClose w1))"

text \<open>
  What \<^verbatim>\<open>tarf.add(src, arcname=dest_file)\<close> stores for \<open>src\<close>. The archive is opened
  without \<^verbatim>\<open>dereference\<close>, so \<^verbatim>\<open>tarf.add\<close> asks \<^verbatim>\<open>os.lstat\<close> and does not follow
  links: a regular file is stored with its bytes, a symbolic link as a link, with its
  target and no bytes. \<^verbatim>\<open>copy_to\<close> comes here only with a \<open>src\<close> that \<open>isfile\<close> admits,
  which names a regular file or a link.
\<close>

definition packed :: "world \<Rightarrow> string \<Rightarrow> body option" where
  "packed w src =
     (case local_fs w src of
        Some (File content) \<Rightarrow> Some (Content content)
      | Some (Symlink target) \<Rightarrow> Some (LinkTo target)
      | _ \<Rightarrow> None)"

text \<open>
  Lines 118-122: the archive built in the temporary file has the one member
  \<^verbatim>\<open>tarf.add(src, arcname=dest_file)\<close> adds, and is handed to \<^verbatim>\<open>put_archive\<close>.
\<close>

definition send_archive ::
  "container \<Rightarrow> string \<Rightarrow> string \<Rightarrow> string \<Rightarrow> world \<Rightarrow> (exn + unit) \<times> world" where
  "send_archive c dest_dir dest_file src w =
     (case packed w src of
        Some b \<Rightarrow>
          (let tempf = [(dest_file, b)];
               w1 = emit (TarAdd src dest_file) w;
               w2 = emit (PutArchive dest_dir tempf) w1
           in case put_archive c dest_dir tempf of
                Inl x \<Rightarrow> (Inl x, w2)
              | Inr u \<Rightarrow> (Inr (), w2))
      | None \<Rightarrow> (Inl (OtherError ''OSError''), w))"

definition copy_to ::
  "container \<Rightarrow> string \<Rightarrow> string \<Rightarrow> world \<Rightarrow> (exn + unit) \<times> world" where
  "copy_to c path src w =
     (if \<not> isfile w src then (Inl (CopyError (''Not a file: '' @ src)), w)
      else
        (case get_stat c path w of
           (Inl (APIError x), w1) \<Rightarrow> send_archive c (dirname path) (basename path) src w1
         | (Inl x, w1) \<Rightarrow> (Inl x, w1)
         | (Inr st, w1) \<Rightarrow>
             (if is_dir (mode st) then send_archive c path (basename src) src w1
              else if is_reg (mode st) then send_archive c (dirname path) (basename path) src w1
              else (Inl (CopyError (''Unable to overwrite '' @ path)), w1))))"

subsection \<open>The driver (\<^verbatim>\<open>copy\<close>, lines 125-153)\<close>

text \<open>
  \<^verbatim>\<open>s.split(sep, maxsplit=1)\<close> for a separator of one character: the string itself when
  it has no separator, else what is before the first one and what is after it.
\<close>

fun split1 :: "char \<Rightarrow> string \<Rightarrow> string list" where
  "split1 sep [] = [[]]"
| "split1 sep (c # cs) =
     (if c = sep then [[], cs]
      else (case split1 sep cs of
              [] \<Rightarrow> [[c]]
            | h # t \<Rightarrow> (c # h) # t))"

record Args =
  buffer_length :: int
  source :: string
  destination :: string

datatype action = CopyFrom | CopyTo

text \<open>
  A request is the container's name, the path in the container, the local path and the
  action. Lines 129-141: \<open>None\<close> is the \<^verbatim>\<open>else\<close> branch; unpacking a split of other than
  two parts would raise \<^verbatim>\<open>ValueError\<close>.
\<close>

type_synonym request = "string \<times> string \<times> string \<times> action"

definition unpack :: "string list \<Rightarrow> string \<Rightarrow> action \<Rightarrow> exn + request" where
  "unpack parts local_path act =
     (case parts of
        [container_name, container_path] \<Rightarrow> Inr (container_name, container_path, local_path, act)
      | _ \<Rightarrow> Inl (OtherError ''ValueError''))"

definition resolve :: "string \<Rightarrow> string \<Rightarrow> (exn + request) option" where
  "resolve src dst =
     (if SEP \<in> set src \<and> SEP \<notin> set dst then Some (unpack (split1 SEP src) dst CopyFrom)
      else if SEP \<in> set dst \<and> SEP \<notin> set src then Some (unpack (split1 SEP dst) src CopyTo)
      else None)"

text \<open>The body of the \<^verbatim>\<open>try\<close> statement, lines 143-145.\<close>

definition attempt :: "env \<Rightarrow> request \<Rightarrow> world \<Rightarrow> (exn + unit) \<times> world" where
  "attempt e rq w =
     (case rq of (container_name, container_path, local_path, act) \<Rightarrow>
        (let w1 = emit FromEnv w
         in case from_env e of
              Inl x \<Rightarrow> (Inl x, w1)
            | Inr client \<Rightarrow>
                (let w2 = emit (ContainersGet container_name) w1
                 in case containers_get e container_name of
                      Inl x \<Rightarrow> (Inl x, w2)
                    | Inr c \<Rightarrow>
                        (case act of
                           CopyFrom \<Rightarrow> copy_from e c container_path local_path w2
                         | CopyTo \<Rightarrow> copy_to c container_path local_path w2))))"

text \<open>
  \<open>Inr n\<close> is the value returned, \<open>Inl x\<close> an exception that leaves \<^verbatim>\<open>copy\<close>.
\<close>

definition copy :: "env \<Rightarrow> Args \<Rightarrow> world \<Rightarrow> (exn + int) \<times> world" where
  "copy e args w =
     (if buffer_length args \<le> 0
      then (Inr 1, print ''Buffer length should be positive integer'' w)
      else
        (case resolve (source args) (destination args) of
           None \<Rightarrow>
             (Inr 1, print ''Either source or destination should have format<container>:<path>'' w)
         | Some (Inl x) \<Rightarrow> (Inl x, w)
         | Some (Inr rq) \<Rightarrow>
             (case attempt e rq w of
                (Inl (APIError m), w1) \<Rightarrow> (Inr 2, print (''Docker API error: '' @ m) w1)
              | (Inl (CopyError m), w1) \<Rightarrow> (Inr 2, print (''Copy error: '' @ m) w1)
              | (Inl x, w1) \<Rightarrow> (Inl x, w1)
              | (Inr u, w1) \<Rightarrow> (Inr 0, w1))))"

subsection \<open>A container, libraries and a local filesystem to run the program on\<close>

text \<open>
  The container of the repository's tests: \<^verbatim>\<open>/etc/fedora-release\<close> is a regular file,
  \<^verbatim>\<open>/etc\<close> and \<^verbatim>\<open>/tmp\<close> are directories, \<^verbatim>\<open>/dev/log\<close> is a socket, and nothing else
  exists. The decoder takes the first \<open>bufsize\<close> bytes of the stream for the content of one
  member named \<^verbatim>\<open>fedora-release\<close>.
\<close>

definition test_container :: container where
  "test_container =
     \<lparr>get_archive = (\<lambda>path chunk_size.
          if path = ''/etc/fedora-release'' then Inr ([''Fedora'', '' 25''], \<lparr>mode = 420\<rparr>)
          else if path = ''/etc'' then Inr ([], \<lparr>mode = MODE_DIR OR 493\<rparr>)
          else if path = ''/tmp'' then Inr ([], \<lparr>mode = MODE_DIR OR 511\<rparr>)
          else if path = ''/dev/log'' then Inr ([], \<lparr>mode = MODE_SOCKET OR 438\<rparr>)
          else Inl (APIError ''404 Not Found'')),
      put_archive = (\<lambda>dest_dir archive. Inr ())\<rparr>"

definition test_env :: env where
  "test_env =
     \<lparr>from_env = Inr (),
      containers_get = (\<lambda>name.
          if name = ''test'' then Inr test_container else Inl (APIError ''404 No such container'')),
      tarfile_open = (\<lambda>r bufsize. Inr [(''fedora-release'', fst (read r bufsize))])\<rparr>"

text \<open>The same libraries with no engine to connect to.\<close>

definition offline_env :: env where
  "offline_env = test_env\<lparr>from_env := Inl (OtherError ''DockerException'')\<rparr>"

text \<open>
  Locally \<^verbatim>\<open>/tmp\<close> is a directory, \<^verbatim>\<open>/etc/system-release\<close> a file, and
  \<^verbatim>\<open>/etc/redhat-release\<close> a symbolic link to it.
\<close>

definition test_world :: world where
  "test_world =
     \<lparr>local_fs = (\<lambda>p.
          if p = ''/tmp'' then Some Dir
          else if p = ''/etc/system-release'' then Some (File ''Fedora'')
          else if p = ''/etc/redhat-release'' then Some (Symlink ''system-release'')
          else None),
      trace = [],
      stdout = []\<rparr>"

section \<open>The adapter returns the stream, in order\<close>

lemma slice_to_from: "slice_to b n @ slice_from b n = b"
  by (simp add: slice_to_def slice_from_def)

lemma read_loop_exact:
  "int (length rv) \<le> n \<Longrightarrow> buf r = [] \<or> int (length rv) = n \<Longrightarrow>
     fst (read_loop n rv r) = rv @ take (nat (n - int (length rv))) (remaining r) \<and>
     remaining (snd (read_loop n rv r)) = drop (nat (n - int (length rv))) (remaining r)"
proof (induction n rv r rule: read_loop.induct)
  case (1 n rv r)
  show ?case
  proof (cases "int (length rv) < n")
    case False
    with "1.prems" show ?thesis by (simp add: read_loop.simps [of n rv r])
  next
    case lt: True
    with "1.prems" have b: "buf r = []" by auto
    show ?thesis
    proof (cases "generator r")
      case Nil
      with lt b show ?thesis by (simp add: read_loop.simps [of n rv r] remaining_def)
    next
      case (Cons data rest)
      define t where "t = n - int (length rv)"
      define rv1 where "rv1 = rv @ buf r @ slice_to data t"
      define r1 where "r1 = \<lparr>generator = rest, buf = slice_from data t\<rparr>"
      have tpos: "0 < t" using lt by (simp add: t_def)
      have step: "read_loop n rv r = read_loop n rv1 r1"
        using lt Cons by (simp add: read_loop.simps [of n rv r] t_def rv1_def r1_def Let_def)
      have rv1: "rv1 = rv @ take (nat t) data"
        using tpos b by (simp add: rv1_def slice_to_def)
      have r1: "remaining r1 = drop (nat t) data @ concat rest"
        using tpos by (simp add: r1_def remaining_def slice_from_def)
      have rem: "remaining r = data @ concat rest"
        using b Cons by (simp add: remaining_def)
      have len1: "int (length rv1) \<le> n"
        using tpos by (auto simp: rv1 t_def min_def)
      have inv1: "buf r1 = [] \<or> int (length rv1) = n"
        using tpos by (auto simp: r1_def rv1 slice_from_def t_def min_def)
      define k where "k = nat (n - int (length rv1))"
      have IH: "fst (read_loop n rv1 r1) = rv1 @ take k (remaining r1) \<and>
          remaining (snd (read_loop n rv1 r1)) = drop k (remaining r1)"
        using "1.IH" [OF lt Cons t_def len1 [unfolded rv1_def] inv1 [unfolded rv1_def r1_def]]
        by (simp add: rv1_def r1_def k_def)
      have goal_t: "nat (n - int (length rv)) = nat t"
        by (simp add: t_def)
      show ?thesis
      proof (cases "int (length data) \<le> t")
        case True
        have d: "k = nat t - length data"
          using True tpos by (simp add: k_def rv1 t_def nat_diff_distrib')
        have tk: "rv1 = rv @ data" and dr: "remaining r1 = concat rest"
          using True by (simp_all add: rv1 r1)
        from IH True show ?thesis
          unfolding step goal_t rem d tk dr by simp
      next
        case False
        have d: "k = 0"
          using False tpos by (simp add: k_def rv1 t_def min_def)
        have le: "nat t \<le> length data"
          using False by simp
        from IH le show ?thesis
          unfolding step goal_t rem d r1 rv1 by simp
      qed
    qed
  qed
qed

lemma read_exact:
  assumes "0 \<le> n"
  shows "fst (read r n) = take (nat n) (remaining r)"
    and "remaining (snd (read r n)) = drop (nat n) (remaining r)"
proof -
  show "fst (read r n) = take (nat n) (remaining r)"
  proof (cases "n \<le> int (length (buf r))")
    case True
    with assms show ?thesis by (simp add: read_def slice_to_def remaining_def)
  next
    case False
    then have le: "int (length (buf r)) \<le> n" by simp
    have "fst (read_loop n (buf r) (r\<lparr>buf := []\<rparr>)) =
        buf r @ take (nat (n - int (length (buf r)))) (remaining (r\<lparr>buf := []\<rparr>))"
      using read_loop_exact [OF le, of "r\<lparr>buf := []\<rparr>"] by simp
    with False assms show ?thesis
      by (simp add: read_def remaining_def nat_diff_distrib')
  qed
  show "remaining (snd (read r n)) = drop (nat n) (remaining r)"
  proof (cases "n \<le> int (length (buf r))")
    case True
    with assms show ?thesis by (simp add: read_def slice_from_def remaining_def)
  next
    case False
    then have le: "int (length (buf r)) \<le> n" by simp
    have "remaining (snd (read_loop n (buf r) (r\<lparr>buf := []\<rparr>))) =
        drop (nat (n - int (length (buf r)))) (remaining (r\<lparr>buf := []\<rparr>))"
      using read_loop_exact [OF le, of "r\<lparr>buf := []\<rparr>"] by simp
    with False assms show ?thesis
      by (simp add: read_def remaining_def nat_diff_distrib')
  qed
qed

lemma reads_exact:
  "\<forall>n\<in>set ns. 0 \<le> n \<Longrightarrow>
     concat (fst (reads r ns)) = take (nat (sum_list ns)) (remaining r) \<and>
     remaining (snd (reads r ns)) = drop (nat (sum_list ns)) (remaining r)"
proof (induction ns arbitrary: r)
  case Nil
  show ?case by simp
next
  case (Cons n ns)
  obtain rv r1 where rd: "read r n = (rv, r1)" by (cases "read r n")
  obtain rvs r2 where rds: "reads r1 ns = (rvs, r2)" by (cases "reads r1 ns")
  from Cons.prems have n0: "0 \<le> n" and rest: "\<forall>m\<in>set ns. 0 \<le> m" by simp_all
  have s0: "0 \<le> sum_list ns" using rest by (simp add: sum_list_nonneg)
  from read_exact [OF n0, of r] rd
  have rv: "rv = take (nat n) (remaining r)" and r1: "remaining r1 = drop (nat n) (remaining r)"
    by simp_all
  from Cons.IH [OF rest, of r1] rds
  have rvs: "concat rvs = take (nat (sum_list ns)) (remaining r1)"
    and r2: "remaining r2 = drop (nat (sum_list ns)) (remaining r1)"
    by simp_all
  have split: "nat (n + sum_list ns) = nat n + nat (sum_list ns)"
    using n0 s0 by (simp add: nat_add_distrib)
  show ?case
    by (simp add: rd rds rv rvs r1 r2 split take_add add.commute)
qed

lemma read_loop_drains:
  "buf r = [] \<Longrightarrow> int (length rv) + int (length (concat (generator r))) < n \<Longrightarrow>
     snd (read_loop n rv r) = \<lparr>generator = [], buf = []\<rparr>"
proof (induction n rv r rule: read_loop.induct)
  case (1 n rv r)
  from "1.prems" have lt: "int (length rv) < n" by simp
  show ?case
  proof (cases "generator r")
    case Nil
    with lt "1.prems" show ?thesis by (simp add: read_loop.simps [of n rv r])
  next
    case (Cons data rest)
    define t where "t = n - int (length rv)"
    have short: "int (length data) < t"
      using "1.prems" Cons by (simp add: t_def)
    then have tpos: "0 < t" by simp
    have st: "slice_to data t = data" and sf: "slice_from data t = []"
      using short tpos by (simp_all add: slice_to_def slice_from_def)
    have step: "read_loop n rv r = read_loop n (rv @ buf r @ slice_to data t)
        \<lparr>generator = rest, buf = slice_from data t\<rparr>"
      using lt Cons by (simp add: read_loop.simps [of n rv r] t_def Let_def)
    have "snd (read_loop n (rv @ buf r @ slice_to data t)
        \<lparr>generator = rest, buf = slice_from data t\<rparr>) = \<lparr>generator = [], buf = []\<rparr>"
    proof (rule "1.IH" [OF lt Cons t_def])
      show "buf \<lparr>generator = rest, buf = slice_from data t\<rparr> = []"
        by (simp add: sf)
      show "int (length (rv @ buf r @ slice_to data t)) +
          int (length (concat (generator \<lparr>generator = rest, buf = slice_from data t\<rparr>))) < n"
        using "1.prems" Cons by (simp add: st)
    qed
    with step show ?thesis by simp
  qed
qed

lemma read_short:
  assumes "int (length (remaining r)) < n"
  shows "fst (read r n) = remaining r" and "snd (read r n) = \<lparr>generator = [], buf = []\<rparr>"
proof -
  from assms have n0: "0 \<le> n" by simp
  from assms show "fst (read r n) = remaining r"
    by (simp add: read_exact(1) [OF n0])
  from assms have "\<not> n \<le> int (length (buf r))"
    by (simp add: remaining_def)
  moreover have "snd (read_loop n (buf r) (r\<lparr>buf := []\<rparr>)) = \<lparr>generator = [], buf = []\<rparr>"
    using assms by (intro read_loop_drains) (simp_all add: remaining_def)
  ultimately show "snd (read r n) = \<lparr>generator = [], buf = []\<rparr>"
    by (simp add: read_def)
qed

lemma read_exhausted:
  "read \<lparr>generator = [], buf = []\<rparr> m = ([], \<lparr>generator = [], buf = []\<rparr>)"
  by (simp add: read_def slice_to_def slice_from_def read_loop.simps [of m "[]"])

lemma reads_exhausted:
  "reads \<lparr>generator = [], buf = []\<rparr> ms = (replicate (length ms) [], \<lparr>generator = [], buf = []\<rparr>)"
  by (induction ms) (simp_all add: read_exhausted)

lemma read_loop_conserve:
  "fst (read_loop n rv r) @ remaining (snd (read_loop n rv r)) = rv @ remaining r"
proof (induction n rv r rule: read_loop.induct)
  case (1 n rv r)
  show ?case
  proof (cases "int (length rv) < n")
    case False
    then show ?thesis by (simp add: read_loop.simps [of n rv r])
  next
    case lt: True
    show ?thesis
    proof (cases "generator r")
      case Nil
      with lt show ?thesis by (simp add: read_loop.simps [of n rv r])
    next
      case (Cons data rest)
      define t where "t = n - int (length rv)"
      have step: "read_loop n rv r = read_loop n (rv @ buf r @ slice_to data t)
          \<lparr>generator = rest, buf = slice_from data t\<rparr>"
        using lt Cons by (simp add: read_loop.simps [of n rv r] t_def Let_def)
      have "fst (read_loop n rv r) @ remaining (snd (read_loop n rv r)) =
          (rv @ buf r @ slice_to data t) @ remaining \<lparr>generator = rest, buf = slice_from data t\<rparr>"
        unfolding step by (rule "1.IH" [OF lt Cons t_def])
      also have "\<dots> = rv @ buf r @ (slice_to data t @ slice_from data t) @ concat rest"
        by (simp add: remaining_def)
      also have "\<dots> = rv @ remaining r"
        using Cons by (simp add: slice_to_from remaining_def)
      finally show ?thesis .
    qed
  qed
qed

lemma read_conserve: "fst (read r n) @ remaining (snd (read r n)) = remaining r"
proof (cases "n \<le> int (length (buf r))")
  case True
  then have "fst (read r n) @ remaining (snd (read r n)) =
      (slice_to (buf r) n @ slice_from (buf r) n) @ concat (generator r)"
    by (simp add: read_def remaining_def)
  then show ?thesis by (simp add: slice_to_from remaining_def)
next
  case False
  then show ?thesis
    using read_loop_conserve [of n "buf r" "r\<lparr>buf := []\<rparr>"]
    by (simp add: read_def remaining_def)
qed

lemma reads_conserve: "concat (fst (reads r ns)) @ remaining (snd (reads r ns)) = remaining r"
proof (induction ns arbitrary: r)
  case Nil
  show ?case by simp
next
  case (Cons n ns)
  obtain rv r1 where rd: "read r n = (rv, r1)" by (cases "read r n")
  obtain rvs r2 where rds: "reads r1 ns = (rvs, r2)" by (cases "reads r1 ns")
  from read_conserve [of r n] rd have a: "rv @ remaining r1 = remaining r" by simp
  from Cons.IH [of r1] rds have b: "concat rvs @ remaining r2 = remaining r1" by simp
  show ?case by (simp add: rd rds a b)
qed

text \<open>
  Claim C1, as the program has it. A caller issues the reads \<open>ns\<close> on a fresh reader over
  \<open>chunks\<close>. The results, concatenated, and then what the reader has still to deliver,
  are the concatenated chunks: nothing is lost, repeated or reordered. When the sizes are
  non-negative the results are the first \<open>sum_list ns\<close> bytes of the concatenated chunks,
  so all of it as soon as the sizes add up to at least its length. From any reader, a
  read asking for more bytes than remain returns exactly what remains, and every read
  after it returns the empty string.
\<close>

theorem reader_exactness:
  "concat (fst (reads (Reader_init chunks) ns)) @ remaining (snd (reads (Reader_init chunks) ns))
     = concat chunks \<and>
   ((\<forall>n\<in>set ns. 0 \<le> n) \<longrightarrow>
      concat (fst (reads (Reader_init chunks) ns)) = take (nat (sum_list ns)) (concat chunks) \<and>
      (int (length (concat chunks)) \<le> sum_list ns \<longrightarrow>
         concat (fst (reads (Reader_init chunks) ns)) = concat chunks)) \<and>
   (int (length (remaining r)) < n \<longrightarrow>
      fst (read r n) = remaining r \<and>
      fst (reads (snd (read r n)) ms) = replicate (length ms) [])"
proof -
  have rem: "remaining (Reader_init chunks) = concat chunks"
    by (simp add: remaining_def Reader_init_def)
  have kept: "concat (fst (reads (Reader_init chunks) ns)) @
      remaining (snd (reads (Reader_init chunks) ns)) = concat chunks"
    using reads_conserve [of "Reader_init chunks" ns] by (simp add: rem)
  have pre: "concat (fst (reads (Reader_init chunks) ns)) = take (nat (sum_list ns)) (concat chunks)"
    if "\<forall>n\<in>set ns. 0 \<le> n"
    using reads_exact [OF that, of "Reader_init chunks"] by (simp add: rem)
  have whole: "concat (fst (reads (Reader_init chunks) ns)) = concat chunks"
    if "\<forall>n\<in>set ns. 0 \<le> n" and "int (length (concat chunks)) \<le> sum_list ns"
  proof -
    from that(2) have "length (concat chunks) \<le> nat (sum_list ns)" by linarith
    with pre [OF that(1)] show ?thesis by simp
  qed
  have short: "fst (read r n) = remaining r \<and>
      fst (reads (snd (read r n)) ms) = replicate (length ms) []"
    if "int (length (remaining r)) < n"
    using read_short [OF that] by (simp add: reads_exhausted)
  from kept pre whole short show ?thesis by blast
qed

text \<open>
  The reads of the repository's test, then one more read of five bytes that drains the
  source; and a short read from a reader with one byte buffered and five to pull.
\<close>

theorem reader_exactness_witness:
  "concat (fst (reads (Reader_init [''abc'', ''abc'', ''abc'', ''abc'', ''abc'']) [1, 2, 4, 7]))
     = ''abcabcabcabcab'' \<and>
   concat (fst (reads (Reader_init [''abc'', ''abc'', ''abc'', ''abc'', ''abc'']) [1, 2, 4, 7, 5]))
     = ''abcabcabcabcabc'' \<and>
   fst (read \<lparr>generator = [''bc'', ''abc''], buf = ''a''\<rparr> 7) = ''abcabc'' \<and>
   fst (reads (snd (read \<lparr>generator = [''bc'', ''abc''], buf = ''a''\<rparr> 7)) [3, 0, 1]) = [[], [], []]"
  using reader_exactness [of "[''abc'', ''abc'', ''abc'', ''abc'', ''abc'']" "[1, 2, 4, 7]"
      "\<lparr>generator = [''bc'', ''abc''], buf = ''a''\<rparr>" 7 "[3, 0, 1]"]
    reader_exactness [of "[''abc'', ''abc'', ''abc'', ''abc'', ''abc'']" "[1, 2, 4, 7, 5]"
      "\<lparr>generator = [''bc'', ''abc''], buf = ''a''\<rparr>" 7 "[3, 0, 1]"]
  by (simp add: remaining_def)

text \<open>
  The reads of the repository's test return fourteen of the fifteen bytes: reads that stop
  early do not return the whole stream.
\<close>

theorem read_results_not_whole_stream:
  "fst (reads (Reader_init [''abc'', ''abc'', ''abc'', ''abc'', ''abc'']) [1, 2, 4, 7])
     = [''a'', ''bc'', ''abca'', ''bcabcab''] \<and>
   concat (fst (reads (Reader_init [''abc'', ''abc'', ''abc'', ''abc'', ''abc'']) [1, 2, 4, 7]))
     \<noteq> concat [''abc'', ''abc'', ''abc'', ''abc'', ''abc'']"
  by code_simp

section \<open>File modes\<close>

lemma mode_bits:
  "MODE_DIR = 2 ^ 31" "MODE_SYMLINK = 2 ^ 28" "MODE_DEV = 2 ^ 27" "MODE_NAMED_PIPE = 2 ^ 26"
  "MODE_SOCKET = 2 ^ 25" "MODE_CHAR_DEV = 2 ^ 22" "MODE_IRREGULAR = 2 ^ 20"
  by (simp_all add: MODE_DIR_def MODE_SYMLINK_def MODE_DEV_def MODE_NAMED_PIPE_def
      MODE_SOCKET_def MODE_CHAR_DEV_def MODE_IRREGULAR_def)

lemma and_or_eq_0_iff: "(m AND (a OR b) = 0) \<longleftrightarrow> (m AND a = 0 \<and> m AND b = 0)" for m a b :: int
  by (simp add: bit.conj_disj_distrib or_eq_0_iff)

lemma is_reg_no_bits:
  "is_reg m \<longleftrightarrow>
     (m AND MODE_DIR = 0 \<and> m AND MODE_SYMLINK = 0 \<and> m AND MODE_DEV = 0 \<and>
      m AND MODE_NAMED_PIPE = 0 \<and> m AND MODE_SOCKET = 0 \<and> m AND MODE_CHAR_DEV = 0 \<and>
      m AND MODE_IRREGULAR = 0)"
  unfolding is_reg_def MODE_REG_def and_or_eq_0_iff by blast


text \<open>
  Claim C4, as the program has it: \<open>is_dir\<close> holds exactly when the directory bit,
  bit 31, is set; the other special bits play no part, so setting the directory bit in any
  mode makes it a directory's.
\<close>

theorem is_dir_iff_dir_bit: "(is_dir m \<longleftrightarrow> bit m 31) \<and> is_dir (m OR MODE_DIR)"
  unfolding is_dir_def mode_bits and_exp_eq_0_iff_not_bit by (simp add: bit_or_iff bit_exp_iff)

text \<open>
  A mode with the directory bit and the symlink bit: \<open>is_dir\<close> holds, though the
  directory bit is not the only special bit set.
\<close>

theorem is_dir_with_symlink_bit:
  "is_dir (MODE_DIR OR MODE_SYMLINK) \<noteq>
     ((MODE_DIR OR MODE_SYMLINK) AND MODE_DIR \<noteq> 0 \<and>
      (MODE_DIR OR MODE_SYMLINK) AND MODE_SYMLINK = 0 \<and>
      (MODE_DIR OR MODE_SYMLINK) AND MODE_DEV = 0 \<and>
      (MODE_DIR OR MODE_SYMLINK) AND MODE_NAMED_PIPE = 0 \<and>
      (MODE_DIR OR MODE_SYMLINK) AND MODE_SOCKET = 0 \<and>
      (MODE_DIR OR MODE_SYMLINK) AND MODE_CHAR_DEV = 0 \<and>
      (MODE_DIR OR MODE_SYMLINK) AND MODE_IRREGULAR = 0)"
  by (simp add: is_dir_def MODE_DIR_def MODE_SYMLINK_def)

text \<open>
  Claim C6: \<open>is_reg\<close> holds exactly when none of the seven special bits is set
  (directory, symlink, device, named pipe, socket, character device, irregular), which
  are the bits 31, 28, 27, 26, 25, 22 and 20; the mode \<open>0\<close> is regular.
\<close>

theorem is_reg_iff_no_special_bit:
  "(is_reg m \<longleftrightarrow>
      (m AND MODE_DIR = 0 \<and> m AND MODE_SYMLINK = 0 \<and> m AND MODE_DEV = 0 \<and>
       m AND MODE_NAMED_PIPE = 0 \<and> m AND MODE_SOCKET = 0 \<and> m AND MODE_CHAR_DEV = 0 \<and>
       m AND MODE_IRREGULAR = 0)) \<and>
   (is_reg m \<longleftrightarrow>
      (\<not> bit m 31 \<and> \<not> bit m 28 \<and> \<not> bit m 27 \<and> \<not> bit m 26 \<and> \<not> bit m 25 \<and> \<not> bit m 22 \<and> \<not> bit m 20)) \<and>
   is_reg 0"
proof (intro conjI)
  show named: "is_reg m \<longleftrightarrow>
      (m AND MODE_DIR = 0 \<and> m AND MODE_SYMLINK = 0 \<and> m AND MODE_DEV = 0 \<and>
       m AND MODE_NAMED_PIPE = 0 \<and> m AND MODE_SOCKET = 0 \<and> m AND MODE_CHAR_DEV = 0 \<and>
       m AND MODE_IRREGULAR = 0)"
    by (rule is_reg_no_bits)
  show "is_reg m \<longleftrightarrow>
      (\<not> bit m 31 \<and> \<not> bit m 28 \<and> \<not> bit m 27 \<and> \<not> bit m 26 \<and> \<not> bit m 25 \<and> \<not> bit m 22 \<and> \<not> bit m 20)"
    unfolding named unfolding mode_bits and_exp_eq_0_iff_not_bit by simp
  show "is_reg 0"
    by (simp add: is_reg_def)
qed

section \<open>Download\<close>

lemma emit_simps [simp]:
  "trace (emit ev w) = trace w @ [ev]"
  "local_fs (emit ev w) = local_fs w"
  "stdout (emit ev w) = stdout w"
  "isdir (emit ev w) p = isdir w p"
  "isfile (emit ev w) p = isfile w p"
  by (simp_all add: emit_def isdir_def isfile_def stat_node_def)

lemma print_simps [simp]:
  "trace (print s w) = trace w"
  "local_fs (print s w) = local_fs w"
  "stdout (print s w) = stdout w @ [s]"
  by (simp_all add: print_def)

lemma emit_emit: "emit b (emit a w) = w\<lparr>trace := trace w @ [a, b]\<rparr>"
  by (simp add: emit_def)

lemma special_bit_not_reg:
  assumes "m AND MODE_DIR \<noteq> 0 \<or> m AND MODE_SYMLINK \<noteq> 0 \<or> m AND MODE_DEV \<noteq> 0 \<or>
      m AND MODE_NAMED_PIPE \<noteq> 0 \<or> m AND MODE_SOCKET \<noteq> 0 \<or> m AND MODE_CHAR_DEV \<noteq> 0 \<or>
      m AND MODE_IRREGULAR \<noteq> 0"
  shows "\<not> is_reg m"
  using assms by (auto simp: is_reg_no_bits)

text \<open>
  Claim C5: when the archive fetch answers with a mode that has a special bit set, the
  download raises \<^verbatim>\<open>CopyError("Only regular files are supported")\<close>. All it has done by
  then is fetch and close the stream: the decoder was not opened and nothing was written.
\<close>

theorem copy_from_rejects_non_regular:
  assumes fetch: "get_archive c path (Some DEFAULT_BUF_SIZE) = Inr (data, st)"
    and special: "mode st AND MODE_DIR \<noteq> 0 \<or> mode st AND MODE_SYMLINK \<noteq> 0 \<or>
      mode st AND MODE_DEV \<noteq> 0 \<or> mode st AND MODE_NAMED_PIPE \<noteq> 0 \<or>
      mode st AND MODE_SOCKET \<noteq> 0 \<or> mode st AND MODE_CHAR_DEV \<noteq> 0 \<or>
      mode st AND MODE_IRREGULAR \<noteq> 0"
  shows "copy_from e c path dest w =
    (Inl (CopyError ''Only regular files are supported''),
     w\<lparr>trace := trace w @ [GetArchive path (Some DEFAULT_BUF_SIZE), StreamClose]\<rparr>)"
proof -
  from special have "\<not> is_reg (mode st)" by (rule special_bit_not_reg)
  then have "copy_from_try e data st dest (emit (GetArchive path (Some DEFAULT_BUF_SIZE)) w) =
      (Inl (CopyError ''Only regular files are supported''),
       emit (GetArchive path (Some DEFAULT_BUF_SIZE)) w)"
    by (simp add: copy_from_try_def)
  with fetch show ?thesis
    by (simp add: copy_from_def emit_emit)
qed

text \<open>Downloading the directory \<^verbatim>\<open>/etc\<close> of the test container.\<close>

theorem copy_from_rejects_non_regular_witness:
  "copy_from test_env test_container ''/etc'' ''/tmp/fr'' test_world =
    (Inl (CopyError ''Only regular files are supported''),
     test_world\<lparr>trace := [GetArchive ''/etc'' (Some 1024), StreamClose]\<rparr>)"
  using copy_from_rejects_non_regular [of test_container "''/etc''" "[]" "\<lparr>mode = MODE_DIR OR 493\<rparr>"
      test_env "''/tmp/fr''" test_world]
  by (simp add: test_container_def test_world_def DEFAULT_BUF_SIZE_def MODE_DIR_def)

text \<open>
  Claim C7, as the program has it. When the archive fetch has succeeded with the mode of a
  regular file and the decoder has opened the stream, a destination that is not a
  directory and whose parent is not a directory makes the download raise
  \<^verbatim>\<open>CopyError("Not a directory: " + parent)\<close>; the local filesystem is left as it was.
\<close>

theorem copy_from_missing_parent:
  assumes fetch: "get_archive c path (Some DEFAULT_BUF_SIZE) = Inr (data, st)"
    and reg: "is_reg (mode st)"
    and opened: "tarfile_open e (Reader_init data) DEFAULT_BUF_SIZE = Inr tf"
    and nodir: "\<not> isdir w dest"
    and noparent: "\<not> isdir w (dirname dest)"
  shows "copy_from e c path dest w =
    (Inl (CopyError (''Not a directory: '' @ dirname dest)),
     w\<lparr>trace := trace w @
        [GetArchive path (Some DEFAULT_BUF_SIZE), TarOpenRead DEFAULT_BUF_SIZE, StreamClose]\<rparr>)"
proof -
  let ?w1 = "emit (GetArchive path (Some DEFAULT_BUF_SIZE)) w"
  have "copy_from_try e data st dest ?w1 =
      (Inl (CopyError (''Not a directory: '' @ dirname dest)),
       emit (TarOpenRead DEFAULT_BUF_SIZE) ?w1)"
    using reg opened nodir noparent by (simp add: copy_from_try_def Let_def)
  with fetch show ?thesis
    by (simp add: copy_from_def emit_def)
qed

text \<open>Downloading \<^verbatim>\<open>/etc/fedora-release\<close> to \<^verbatim>\<open>/tmp/test/fr\<close>, where \<^verbatim>\<open>/tmp/test\<close> is missing.\<close>

theorem copy_from_missing_parent_witness:
  "copy_from test_env test_container ''/etc/fedora-release'' ''/tmp/test/fr'' test_world =
    (Inl (CopyError ''Not a directory: /tmp/test''),
     test_world\<lparr>trace :=
        [GetArchive ''/etc/fedora-release'' (Some 1024), TarOpenRead 1024, StreamClose]\<rparr>)"
  using copy_from_missing_parent [of test_container "''/etc/fedora-release''"
      "[''Fedora'', '' 25'']" "\<lparr>mode = 420\<rparr>" test_env
      "[(''fedora-release'', fst (read (Reader_init [''Fedora'', '' 25'']) 1024))]"
      test_world "''/tmp/test/fr''"]
  by (simp add: test_container_def test_env_def test_world_def DEFAULT_BUF_SIZE_def is_reg_def
      MODE_REG_def MODE_DIR_def MODE_SYMLINK_def MODE_DEV_def MODE_NAMED_PIPE_def
      MODE_SOCKET_def MODE_CHAR_DEV_def MODE_IRREGULAR_def isdir_def stat_node_def
      MAXSYMLINKS_def follow.simps dirname_def rfind_slash_def rstrip_slash_def)

text \<open>
  The repository's test "Copying directory is not supported": the destination's parent is
  missing as well, yet the error is the one about regular files, since the mode is checked
  first.
\<close>

theorem copy_from_directory_before_parent_check:
  "\<not> isdir test_world ''/tmp/test/fr'' \<and>
   \<not> isdir test_world (dirname ''/tmp/test/fr'') \<and>
   fst (copy_from test_env test_container ''/etc'' ''/tmp/test/fr'' test_world) =
     Inl (CopyError ''Only regular files are supported'') \<and>
   fst (copy_from test_env test_container ''/etc'' ''/tmp/test/fr'' test_world) \<noteq>
     Inl (CopyError (''Not a directory: '' @ dirname ''/tmp/test/fr''))"
  by (simp add: copy_from_def copy_from_try_def test_container_def test_world_def
      DEFAULT_BUF_SIZE_def is_reg_def MODE_REG_def MODE_DIR_def MODE_SYMLINK_def MODE_DEV_def
      MODE_NAMED_PIPE_def MODE_SOCKET_def MODE_CHAR_DEV_def MODE_IRREGULAR_def isdir_def
      stat_node_def MAXSYMLINKS_def follow.simps dirname_def rfind_slash_def rstrip_slash_def)

section \<open>Upload\<close>

lemma isfile_content: "local_fs w src = Some (File content) \<Longrightarrow> isfile w src"
  by (simp add: isfile_def stat_node_def follow.simps [of _ _ src])


lemma packed_emit [simp]: "packed (emit ev w) src = packed w src"
  by (simp add: packed_def)



lemmas eval_defs =
  test_container_def test_env_def test_world_def offline_env_def DEFAULT_BUF_SIZE_def SEP_def
  is_reg_def is_dir_def MODE_REG_def MODE_DIR_def MODE_SYMLINK_def MODE_DEV_def
  MODE_NAMED_PIPE_def MODE_SOCKET_def MODE_CHAR_DEV_def MODE_IRREGULAR_def isdir_def isfile_def
  stat_node_def MAXSYMLINKS_def follow.simps packed_def
  dirname_def basename_def rfind_slash_def rstrip_slash_def path_join_def



text \<open>
  Claim C8: an upload whose local source is not a regular file raises
  \<^verbatim>\<open>CopyError("Not a file: " + src)\<close> and has done nothing by then; an upload whose
  destination has a mode that is neither a directory's nor a regular file's raises
  \<^verbatim>\<open>CopyError("Unable to overwrite " + path)\<close> having made the stat call only: no archive
  was built and none was put.
\<close>

theorem copy_to_policy_errors:
  "(\<not> isfile w src \<longrightarrow>
      copy_to c path src w = (Inl (CopyError (''Not a file: '' @ src)), w)) \<and>
   (isfile w src \<and> get_archive c path None = Inr (data, st) \<and>
      \<not> is_dir (mode st) \<and> \<not> is_reg (mode st) \<longrightarrow>
      copy_to c path src w =
        (Inl (CopyError (''Unable to overwrite '' @ path)),
         w\<lparr>trace := trace w @ [GetArchive path None, StreamClose]\<rparr>))"
  by (simp add: copy_to_def get_stat_def emit_def)

text \<open>
  A missing source, a source that is a directory, and the socket \<^verbatim>\<open>/dev/log\<close> as the
  destination.
\<close>

theorem copy_to_policy_errors_witness:
  "copy_to test_container ''/tmp'' ''/etc/missing'' test_world =
     (Inl (CopyError ''Not a file: /etc/missing''), test_world) \<and>
   copy_to test_container ''/tmp'' ''/tmp'' test_world =
     (Inl (CopyError ''Not a file: /tmp''), test_world) \<and>
   copy_to test_container ''/dev/log'' ''/etc/system-release'' test_world =
     (Inl (CopyError ''Unable to overwrite /dev/log''),
      test_world\<lparr>trace := [GetArchive ''/dev/log'' None, StreamClose]\<rparr>)"
  using
    copy_to_policy_errors [of test_world "''/etc/missing''" test_container "''/tmp''"]
    copy_to_policy_errors [of test_world "''/tmp''" test_container "''/tmp''"]
    copy_to_policy_errors [of test_world "''/etc/system-release''" test_container "''/dev/log''"
      "[]" "\<lparr>mode = MODE_SOCKET OR 438\<rparr>"]
  by (simp add: eval_defs)

section \<open>The driver\<close>

lemma split1_first: "sep \<notin> set name \<Longrightarrow> split1 sep (name @ sep # path) = [name, path]"
  by (induction name) auto

lemma resolve_download:
  "SEP \<notin> set name \<Longrightarrow> SEP \<notin> set local \<Longrightarrow>
     resolve (name @ SEP # path) local = Some (Inr (name, path, local, CopyFrom))"
  by (simp add: resolve_def unpack_def split1_first)

lemma resolve_upload:
  "SEP \<notin> set name \<Longrightarrow> SEP \<notin> set local \<Longrightarrow>
     resolve local (name @ SEP # path) = Some (Inr (name, path, local, CopyTo))"
  by (simp add: resolve_def unpack_def split1_first)

lemma resolve_invalid: "(SEP \<in> set src) = (SEP \<in> set dst) \<Longrightarrow> resolve src dst = None"
  by (auto simp: resolve_def)

lemma resolve_valid:
  assumes "(SEP \<in> set src) \<noteq> (SEP \<in> set dst)"
  shows "\<exists>rq. resolve src dst = Some (Inr rq)"
proof (cases "SEP \<in> set src")
  case True
  with assms have dst: "SEP \<notin> set dst" by simp
  from True obtain name path where "src = name @ SEP # path" and "SEP \<notin> set name"
    by (auto dest: split_list_first)
  with dst show ?thesis by (auto simp: resolve_download)
next
  case False
  with assms have "SEP \<in> set dst" by simp
  then obtain name path where "dst = name @ SEP # path" and "SEP \<notin> set name"
    by (auto dest: split_list_first)
  with False show ?thesis by (auto simp: resolve_upload)
qed

lemma open_wb_trace: "trace (snd (open_wb dest w)) = trace w"
  by (simp add: open_wb_def split: option.splits prod.splits node.splits)

lemma extractall_trace: "trace (snd (extractall tf dest w)) = trace w"
proof (induction tf dest w rule: extractall.induct)
  case (1 dest w)
  show ?case by simp
next
  case (2 name data members dest w)
  obtain r w1 where o: "open_wb (path_join dest name) w = (r, w1)"
    by (cases "open_wb (path_join dest name) w")
  with open_wb_trace [of "path_join dest name" w] have w1: "trace w1 = trace w" by simp
  show ?case
  proof (cases r)
    case (Inl e)
    with o w1 show ?thesis by simp
  next
    case (Inr target)
    with o w1 "2.IH" [OF o [symmetric] Inr] show ?thesis by simp
  qed
qed

lemma extract_first_trace: "trace (snd (extract_first tf dest w)) = trace w"
proof -
  obtain r w1 where o: "open_wb dest w = (r, w1)" by (cases "open_wb dest w")
  with open_wb_trace [of dest w] have "trace w1 = trace w" by simp
  with o show ?thesis
    by (simp add: extract_first_def split: list.splits sum.splits prod.splits)
qed

lemma copy_from_try_trace:
  "\<exists>rest. trace (snd (copy_from_try e data st dest w)) = trace w @ rest"
  by (simp add: copy_from_try_def Let_def extractall_trace extract_first_trace split: sum.splits)

lemma copy_from_trace:
  "\<exists>rest. trace (snd (copy_from e c path dest w)) =
     trace w @ GetArchive path (Some DEFAULT_BUF_SIZE) # rest"
proof (cases "get_archive c path (Some DEFAULT_BUF_SIZE)")
  case (Inl x)
  then show ?thesis by (simp add: copy_from_def)
next
  case (Inr ds)
  obtain data st where ds: "ds = (data, st)" by (cases ds)
  let ?w1 = "emit (GetArchive path (Some DEFAULT_BUF_SIZE)) w"
  obtain r w2 where tr: "copy_from_try e data st dest ?w1 = (r, w2)"
    by (cases "copy_from_try e data st dest ?w1")
  from copy_from_try_trace [of e data st dest ?w1] tr
  obtain rest where "trace w2 = trace ?w1 @ rest" by auto
  then have "trace (emit StreamClose w2) =
      trace w @ GetArchive path (Some DEFAULT_BUF_SIZE) # (rest @ [StreamClose])"
    by simp
  moreover have "snd (copy_from e c path dest w) = emit StreamClose w2"
    using Inr ds tr by (simp add: copy_from_def split: sum.splits exn.splits)
  ultimately show ?thesis by metis
qed

lemma send_archive_trace: "\<exists>rest. trace (snd (send_archive c d f src w)) = trace w @ rest"
  by (simp add: send_archive_def Let_def split: option.splits sum.splits)

lemma copy_to_trace:
  assumes "isfile w src"
  shows "\<exists>rest. trace (snd (copy_to c path src w)) = trace w @ GetArchive path None # rest"
proof -
  obtain r w1 where gs: "get_stat c path w = (r, w1)" by (cases "get_stat c path w")
  then obtain pre where w1: "trace w1 = trace w @ GetArchive path None # pre"
    by (auto simp: get_stat_def Let_def split: sum.splits prod.splits)
  have "\<exists>rest. trace (snd (copy_to c path src w)) = trace w1 @ rest"
    using assms gs send_archive_trace [of c _ _ src w1]
    by (auto simp: copy_to_def split: sum.splits exn.splits)
  with w1 show ?thesis by auto
qed

text \<open>
  Claim C9: \<^verbatim>\<open>copy\<close> returns 1, having called nothing and written nothing, when the
  buffer length is not positive or when the separator is in both of source and
  destination or in neither. Otherwise the arguments resolve to a request, and what
  \<^verbatim>\<open>copy\<close> returns follows the attempt on it: 0 when it succeeds, 2 when it raises
  \<^verbatim>\<open>APIError\<close> or \<^verbatim>\<open>CopyError\<close>, and any other exception is raised on.
\<close>

theorem copy_exit_codes:
  "(buffer_length a \<le> 0 \<or> (SEP \<in> set (source a)) = (SEP \<in> set (destination a)) \<longrightarrow>
      fst (copy e a w) = Inr 1 \<and>
      trace (snd (copy e a w)) = trace w \<and> local_fs (snd (copy e a w)) = local_fs w) \<and>
   (0 < buffer_length a \<and> (SEP \<in> set (source a)) \<noteq> (SEP \<in> set (destination a)) \<longrightarrow>
      (\<exists>rq. resolve (source a) (destination a) = Some (Inr rq) \<and>
         fst (copy e a w) =
           (case fst (attempt e rq w) of
              Inr u \<Rightarrow> Inr 0
            | Inl (APIError m) \<Rightarrow> Inr 2
            | Inl (CopyError m) \<Rightarrow> Inr 2
            | Inl x \<Rightarrow> Inl x)))"
proof -
  have invalid: "fst (copy e a w) = Inr 1 \<and>
      trace (snd (copy e a w)) = trace w \<and> local_fs (snd (copy e a w)) = local_fs w"
    if "buffer_length a \<le> 0 \<or> (SEP \<in> set (source a)) = (SEP \<in> set (destination a))"
    using that by (auto simp: copy_def resolve_invalid)
  have valid: "\<exists>rq. resolve (source a) (destination a) = Some (Inr rq) \<and>
         fst (copy e a w) =
           (case fst (attempt e rq w) of
              Inr u \<Rightarrow> Inr 0
            | Inl (APIError m) \<Rightarrow> Inr 2
            | Inl (CopyError m) \<Rightarrow> Inr 2
            | Inl x \<Rightarrow> Inl x)"
    if "0 < buffer_length a \<and> (SEP \<in> set (source a)) \<noteq> (SEP \<in> set (destination a))"
  proof -
    from that obtain rq where rq: "resolve (source a) (destination a) = Some (Inr rq)"
      using resolve_valid by blast
    have "fst (copy e a w) =
           (case fst (attempt e rq w) of
              Inr u \<Rightarrow> Inr 0
            | Inl (APIError m) \<Rightarrow> Inr 2
            | Inl (CopyError m) \<Rightarrow> Inr 2
            | Inl x \<Rightarrow> Inl x)"
      using that rq by (cases "attempt e rq w") (simp add: copy_def split: sum.splits exn.splits)
    with rq show ?thesis by blast
  qed
  from invalid valid show ?thesis by blast
qed

lemmas run_defs =
  copy_def resolve_def unpack_def attempt_def copy_from_def copy_from_try_def copy_to_def
  get_stat_def send_archive_def extract_first_def open_wb_def emit_def print_def
  read_def Reader_init_def slice_to_def slice_from_def

text \<open>
  The five invocations of the repository's test, a download of a missing path and of a
  directory, and a download with no engine to connect to.
\<close>

theorem copy_exit_codes_witness:
  "fst (copy test_env \<lparr>buffer_length = - 2, source = ''/etc/system-release'',
      destination = ''test:/tmp''\<rparr> test_world) = Inr 1 \<and>
   trace (snd (copy test_env \<lparr>buffer_length = - 2, source = ''/etc/system-release'',
      destination = ''test:/tmp''\<rparr> test_world)) = [] \<and>
   fst (copy test_env \<lparr>buffer_length = 2, source = ''/etc/system-release'',
      destination = ''/tmp''\<rparr> test_world) = Inr 1 \<and>
   fst (copy test_env \<lparr>buffer_length = 2, source = ''test1:/etc/system-release'',
      destination = ''test2:/tmp''\<rparr> test_world) = Inr 1 \<and>
   fst (copy test_env \<lparr>buffer_length = 2, source = ''/etc/system-release'',
      destination = ''test:/tmp''\<rparr> test_world) = Inr 0 \<and>
   fst (copy test_env \<lparr>buffer_length = 2, source = ''test:/etc/nonexistent'',
      destination = ''/tmp''\<rparr> test_world) = Inr 2 \<and>
   fst (copy test_env \<lparr>buffer_length = 2, source = ''test:/etc'',
      destination = ''/tmp''\<rparr> test_world) = Inr 2 \<and>
   fst (copy offline_env \<lparr>buffer_length = 2, source = ''test:/etc/fedora-release'',
      destination = ''/tmp''\<rparr> test_world) = Inl (OtherError ''DockerException'')"
  using
    copy_exit_codes [of "\<lparr>buffer_length = - 2, source = ''/etc/system-release'',
      destination = ''test:/tmp''\<rparr>" test_env test_world]
    copy_exit_codes [of "\<lparr>buffer_length = 2, source = ''/etc/system-release'',
      destination = ''/tmp''\<rparr>" test_env test_world]
    copy_exit_codes [of "\<lparr>buffer_length = 2, source = ''test1:/etc/system-release'',
      destination = ''test2:/tmp''\<rparr>" test_env test_world]
    copy_exit_codes [of "\<lparr>buffer_length = 2, source = ''/etc/system-release'',
      destination = ''test:/tmp''\<rparr>" test_env test_world]
    copy_exit_codes [of "\<lparr>buffer_length = 2, source = ''test:/etc/nonexistent'',
      destination = ''/tmp''\<rparr>" test_env test_world]
    copy_exit_codes [of "\<lparr>buffer_length = 2, source = ''test:/etc'',
      destination = ''/tmp''\<rparr>" test_env test_world]
    copy_exit_codes [of "\<lparr>buffer_length = 2, source = ''test:/etc/fedora-release'',
      destination = ''/tmp''\<rparr>" offline_env test_world]
  by (simp add: run_defs eval_defs)

text \<open>
  Claim C10: an argument \<open>s\<close> with a separator is \<open>name @ SEP # path\<close> where \<open>name\<close> has
  no separator, so the split is at the first one; \<open>name\<close> and \<open>path\<close> are what
  \<^verbatim>\<open>copy\<close> resolves the request to, in both directions, and what the engine is asked
  for: the container \<open>name\<close>, then the archive of \<open>path\<close>, whatever separators \<open>path\<close> has.
\<close>

theorem container_argument_split:
  assumes colon: "SEP \<in> set s" and plain: "SEP \<notin> set local"
  shows "\<exists>name path. s = name @ SEP # path \<and> SEP \<notin> set name \<and>
      resolve s local = Some (Inr (name, path, local, CopyFrom)) \<and>
      resolve local s = Some (Inr (name, path, local, CopyTo)) \<and>
      (0 < b \<and> from_env e = Inr () \<and> containers_get e name = Inr c \<longrightarrow>
         (\<exists>rest. trace (snd (copy e \<lparr>buffer_length = b, source = s, destination = local\<rparr> w)) =
            trace w @ [FromEnv, ContainersGet name, GetArchive path (Some DEFAULT_BUF_SIZE)]
              @ rest)) \<and>
      (0 < b \<and> from_env e = Inr () \<and> containers_get e name = Inr c \<and> isfile w local \<longrightarrow>
         (\<exists>rest. trace (snd (copy e \<lparr>buffer_length = b, source = local, destination = s\<rparr> w)) =
            trace w @ [FromEnv, ContainersGet name, GetArchive path None] @ rest))"
proof -
  from colon obtain name path where s: "s = name @ SEP # path" and name: "SEP \<notin> set name"
    by (auto dest: split_list_first)
  have down: "resolve s local = Some (Inr (name, path, local, CopyFrom))"
    unfolding s using name plain by (rule resolve_download)
  have up: "resolve local s = Some (Inr (name, path, local, CopyTo))"
    unfolding s using name plain by (rule resolve_upload)
  let ?w2 = "emit (ContainersGet name) (emit FromEnv w)"
  have fetch: "\<exists>rest. trace (snd (copy e \<lparr>buffer_length = b, source = s, destination = local\<rparr> w)) =
            trace w @ [FromEnv, ContainersGet name, GetArchive path (Some DEFAULT_BUF_SIZE)]
              @ rest"
    if "0 < b \<and> from_env e = Inr () \<and> containers_get e name = Inr c"
  proof -
    from that have at: "attempt e (name, path, local, CopyFrom) w = copy_from e c path local ?w2"
      by (simp add: attempt_def)
    obtain r w3 where cf: "copy_from e c path local ?w2 = (r, w3)"
      by (cases "copy_from e c path local ?w2")
    from copy_from_trace [of e c path local ?w2] cf
    obtain rest where "trace w3 =
        trace w @ [FromEnv, ContainersGet name, GetArchive path (Some DEFAULT_BUF_SIZE)] @ rest"
      by auto
    moreover have "trace (snd (copy e \<lparr>buffer_length = b, source = s, destination = local\<rparr> w)) =
        trace w3"
      using that down at cf by (simp add: copy_def split: sum.splits exn.splits)
    ultimately show ?thesis by simp
  qed
  have stat: "\<exists>rest. trace (snd (copy e \<lparr>buffer_length = b, source = local, destination = s\<rparr> w)) =
            trace w @ [FromEnv, ContainersGet name, GetArchive path None] @ rest"
    if "0 < b \<and> from_env e = Inr () \<and> containers_get e name = Inr c \<and> isfile w local"
  proof -
    from that have at: "attempt e (name, path, local, CopyTo) w = copy_to c path local ?w2"
      by (simp add: attempt_def)
    obtain r w3 where ct: "copy_to c path local ?w2 = (r, w3)"
      by (cases "copy_to c path local ?w2")
    from that have "isfile ?w2 local" by simp
    from copy_to_trace [OF this, of c path] ct
    obtain rest where "trace w3 =
        trace w @ [FromEnv, ContainersGet name, GetArchive path None] @ rest"
      by auto
    moreover have "trace (snd (copy e \<lparr>buffer_length = b, source = local, destination = s\<rparr> w)) =
        trace w3"
      using that up at ct by (simp add: copy_def split: sum.splits exn.splits)
    ultimately show ?thesis by simp
  qed
  from s name down up fetch stat show ?thesis by blast
qed

text \<open>An upload to the path \<^verbatim>\<open>/tmp/x:y\<close> of the container \<^verbatim>\<open>test\<close>.\<close>

theorem container_argument_split_witness:
  "resolve ''test:/tmp/x:y'' ''/etc/system-release'' =
     Some (Inr (''test'', ''/tmp/x:y'', ''/etc/system-release'', CopyFrom)) \<and>
   resolve ''/etc/system-release'' ''test:/tmp/x:y'' =
     Some (Inr (''test'', ''/tmp/x:y'', ''/etc/system-release'', CopyTo)) \<and>
   trace (snd (copy test_env \<lparr>buffer_length = 2, source = ''/etc/system-release'',
      destination = ''test:/tmp/x:y''\<rparr> test_world)) =
     [FromEnv, ContainersGet ''test'', GetArchive ''/tmp/x:y'' None,
      TarAdd ''/etc/system-release'' ''x:y'', PutArchive ''/tmp'' [(''x:y'', Content ''Fedora'')]]"
  using container_argument_split [of "''test:/tmp/x:y''" "''/etc/system-release''" 2 test_env
      test_container test_world]
  by (simp add: run_defs eval_defs)

text \<open>
  Claim C2 does not hold of the program: \<^verbatim>\<open>copy\<close> checks the buffer length and then
  drops it. Run with the buffer length 2, the first invocation of the repository's test
  fetches the archive with the chunk size 1024, which is \<open>DEFAULT_BUF_SIZE\<close>.
\<close>

theorem copy_from_ignores_buffer_length:
  "trace (snd (copy test_env \<lparr>buffer_length = 2, source = ''test:/etc/fedora-release'',
      destination = ''/tmp''\<rparr> test_world)) =
     [FromEnv, ContainersGet ''test'', GetArchive ''/etc/fedora-release'' (Some 1024),
      TarOpenRead 1024, StreamClose]"
  by (simp add: run_defs eval_defs)

end
